theory Spec2Isabelle
  imports Main "HOL-Library.Sublist" "HOL-Library.Multiset" "HOL-Library.Extended_Nat"
begin

section \<open>Constants (utils/constants.js)\<close>

text \<open>
  The gas section of the constants file.  Prices are kept in gwei as decimal fractions
  (\<open>MIN_GWEI: 0.0001\<close>, \<open>MAX_GWEI: 200\<close>); \<open>web3.utils.toWei(x, 'gwei')\<close> turns the
  decimal string into an integer number of wei (one gwei is \<open>10^9\<close> wei).
\<close>

definition MIN_GWEI :: rat where
  "MIN_GWEI = 1 / 10000"

definition MAX_GWEI :: rat where
  "MAX_GWEI = 200"

definition DEFAULT_GAS :: nat where
  "DEFAULT_GAS = 150000"

definition toWei_gwei :: "rat \<Rightarrow> int" where
  "toWei_gwei g = \<lfloor>g * 1000000000\<rfloor>"

section \<open>Nonce tracking (getNonce / incrementNonce of every manager class)\<close>

text \<open>
  Each manager keeps \<open>this.currentNonce\<close>, \<open>null\<close> after construction and after the
  reset at the start of a workflow.  The ledger's answer to \<open>getTransactionCount\<close> is
  an input of the model: \<open>None\<close> when the query throws.  The same two methods are
  repeated verbatim in ContractDeployer, ERC20TokenDeployer, NFTManager,
  ContractTesterManager, BatchOperationManager and TokenTransfer.
\<close>

datatype error = LedgerError | SignError | BroadcastError

type_synonym nonce_state = "nat option"

definition getNonce :: "nat option \<Rightarrow> nonce_state \<Rightarrow> error + (nat \<times> nonce_state)" where
  "getNonce ledger currentNonce =
     (case currentNonce of
        None \<Rightarrow> (case ledger of
                   None \<Rightarrow> Inl LedgerError
                 | Some n \<Rightarrow> Inr (n, Some n))
      | Some c \<Rightarrow> Inr (c, Some c))"

definition incrementNonce :: "nonce_state \<Rightarrow> nonce_state" where
  "incrementNonce currentNonce =
     (case currentNonce of
        None \<Rightarrow> None
      | Some c \<Rightarrow> Some (c + 1))"

text \<open>
  A caller that pairs the two methods: it asks for the nonce and, once it has one,
  increments.  When \<open>getNonce\<close> throws the caller's \<open>try\<close> block is left and no
  increment happens.  \<open>paired_calls\<close> runs one such pair per ledger answer and collects
  the nonces that \<open>getNonce\<close> returned.
\<close>

fun paired_calls :: "nat option list \<Rightarrow> nonce_state \<Rightarrow> nat list \<times> nonce_state" where
  "paired_calls [] st = ([], st)"
| "paired_calls (ledger # rest) st =
     (case getNonce ledger st of
        Inl e \<Rightarrow> paired_calls rest st
      | Inr (n, st') \<Rightarrow>
          (let (ns, st'') = paired_calls rest (incrementNonce st') in (n # ns, st'')))"

section \<open>Gas price (getGasPrice of every manager class)\<close>

text \<open>
  \<open>getGasPrice\<close> mixes BigInt and double arithmetic.  The double operations it uses
  are parameters of the model, over an arbitrary carrier \<open>'n\<close> of JavaScript numbers:
  \<open>Number(bigint)\<close>, \<open>*\<close>, \<open>Math.pow\<close>, truthiness, and \<open>BigInt(Math.floor(x))\<close>, which
  throws a RangeError (here \<open>None\<close>) when \<open>x\<close> is NaN or infinite.  The two constants
  \<open>PRICE_MULTIPLIER = 1.1\<close> and \<open>RETRY_INCREASE = 1.3\<close> are doubles as well.
\<close>

record 'n js_ops =
  js_Number :: "nat \<Rightarrow> 'n"
  js_mul :: "'n \<Rightarrow> 'n \<Rightarrow> 'n"
  js_pow :: "'n \<Rightarrow> nat \<Rightarrow> 'n"
  js_truthy :: "'n \<Rightarrow> bool"
  js_BigInt_floor :: "'n \<Rightarrow> int option"
  PRICE_MULTIPLIER :: 'n
  RETRY_INCREASE :: 'n

definition minGasPrice :: int where
  "minGasPrice = toWei_gwei MIN_GWEI"

definition maxGasPrice :: int where
  "maxGasPrice = toWei_gwei MAX_GWEI"

definition fallbackGasPrice :: int where
  "fallbackGasPrice = toWei_gwei MIN_GWEI"

text \<open>
  The arguments: the double operations, \<open>config.gas_price_multiplier\<close> (\<open>None\<close> when
  the key is absent), the ledger's answer to \<open>web3.eth.getGasPrice()\<close> (\<open>None\<close> when it
  throws), whether the logging inside the \<open>try\<close> block throws (\<open>toFixed\<close> and
  \<open>fromWei\<close> are called there), and \<open>retryCount\<close>.  Every exception inside the
  \<open>try\<close> block ends in the \<open>catch\<close> branch, which returns the fallback price.  The
  source returns the price as a decimal string; the model returns the integer it spells.
\<close>

definition getGasPrice ::
  "'n js_ops \<Rightarrow> 'n option \<Rightarrow> nat option \<Rightarrow> bool \<Rightarrow> nat \<Rightarrow> int" where
  "getGasPrice J gas_price_multiplier ledger logging_throws retryCount =
     (case ledger of
        None \<Rightarrow> fallbackGasPrice
      | Some networkGasPrice \<Rightarrow>
          (let multiplier0 =
                 (case gas_price_multiplier of
                    None \<Rightarrow> PRICE_MULTIPLIER J
                  | Some m \<Rightarrow> if js_truthy J m then m else PRICE_MULTIPLIER J);
               multiplier =
                 (if retryCount > 0
                  then js_mul J multiplier0 (js_pow J (RETRY_INCREASE J) retryCount)
                  else multiplier0)
           in case js_BigInt_floor J (js_mul J (js_Number J networkGasPrice) multiplier) of
                None \<Rightarrow> fallbackGasPrice
              | Some adjustedGasPrice \<Rightarrow>
                  if logging_throws then fallbackGasPrice
                  else if adjustedGasPrice < minGasPrice then minGasPrice
                  else if adjustedGasPrice > maxGasPrice then maxGasPrice
                  else adjustedGasPrice))"

section \<open>JavaScript idioms used by the managers\<close>

text \<open>
  \<open>x || d\<close> on a numeric configuration leaf: the default is taken when the key is
  absent (\<open>undefined\<close>, here \<open>None\<close>) and also when the value is \<open>0\<close>, which is
  falsy.  Configuration counts and percentages are modelled as integers.
\<close>

definition js_or :: "int option \<Rightarrow> int \<Rightarrow> int" where
  "js_or v d = (case v of None \<Rightarrow> d | Some x \<Rightarrow> if x = 0 then d else x)"

text \<open>\<open>s.includes(t)\<close>: \<open>t\<close> occurs in \<open>s\<close> as a contiguous substring.\<close>

fun js_includes :: "string \<Rightarrow> string \<Rightarrow> bool" where
  "js_includes [] t = (t = [])"
| "js_includes (c # cs) t = (prefix t (c # cs) \<or> js_includes cs t)"

section \<open>Double-precision arithmetic\<close>

text \<open>
  The managers compute \<open>Math.floor(Number(estimatedGas) * 1.2)\<close> and
  \<open>Math.floor(Math.random() * k)\<close> in IEEE-754 binary64.  A non-negative finite double
  is an integer significand of at most 53 bits times a power of two; the product of two
  doubles is the exact product rounded to 53 significant bits, ties to even.
  \<open>round53\<close> is that rounding on an integer significand: with \<open>b\<close> the bit length of
  \<open>p\<close>, the lowest \<open>b - 53\<close> bits are rounded away.
\<close>

fun bit_length :: "nat \<Rightarrow> nat" where
  "bit_length n = (if n = 0 then 0 else Suc (bit_length (n div 2)))"

declare bit_length.simps [simp del]

definition round53 :: "nat \<Rightarrow> nat" where
  "round53 p =
     (let b = bit_length p in
      if b \<le> 53 then p
      else (let s = b - 53; m = p div 2 ^ s; r = p mod 2 ^ s; h = 2 ^ (s - 1)
            in if h < r \<or> (r = h \<and> odd m) then (m + 1) * 2 ^ s else m * 2 ^ s))"

text \<open>
  \<open>Math.floor(Number(g) * 1.2)\<close> for a BigInt \<open>g \<ge> 0\<close>.  \<open>Number(g)\<close> is \<open>g\<close> rounded
  to a double, \<open>Infinity\<close> from \<open>2^1024\<close> on.  The literal \<open>1.2\<close> is the double
  \<open>5404319552844595 / 2^52\<close>, so the product has the significand
  \<open>round53 (x * 5404319552844595)\<close> at scale \<open>2^-52\<close>.  The result is a JavaScript
  number: a natural number or \<open>Infinity\<close>.
\<close>

definition gasWithBuffer :: "nat \<Rightarrow> enat" where
  "gasWithBuffer g =
     (let x = round53 g in
      if 2 ^ 1024 \<le> x then \<infinity>
      else (let p = round53 (x * 5404319552844595) in
            if 2 ^ 1076 \<le> p then \<infinity> else enat (p div 2 ^ 52)))"

text \<open>
  A double in \<open>[0, 1)\<close>, as \<open>Math.random()\<close> returns it: \<open>Dbl a e\<close> is \<open>a / 2^e\<close>.
\<close>

datatype js_double = Dbl (mant: nat) (expo: nat)

definition is_random :: "js_double \<Rightarrow> bool" where
  "is_random u \<longleftrightarrow> mant u < 2 ^ expo u \<and> mant u < 2 ^ 53 \<and> expo u \<le> 1074"

text \<open>
  \<open>Math.floor(Math.random() * k)\<close> for an integer \<open>k\<close> of either sign with
  \<open>|k| < 2^53\<close> (every count configuration is far below that).  For \<open>k < 0\<close> the
  product is the negated product with \<open>|k|\<close>, and the floor of a negative number is the
  negated ceiling.
\<close>

definition floor_random_times :: "js_double \<Rightarrow> int \<Rightarrow> int" where
  "floor_random_times u k =
     (if 0 \<le> k
      then int (round53 (mant u * nat k) div 2 ^ expo u)
      else - int ((round53 (mant u * nat (- k)) + 2 ^ expo u - 1) div 2 ^ expo u))"

text \<open>
  \<open>Math.floor(x / d)\<close> for integer-valued doubles \<open>x = p\<close> and \<open>d\<close>, both positive.
  The quotient of two doubles is the exact quotient rounded to 53 significant bits, ties
  to even.  \<open>quotient_exponent\<close> finds the scale \<open>t\<close> at which \<open>p / d * 2^t\<close> has a
  53-bit integer part; \<open>round_quotient n d\<close> rounds \<open>n / d\<close> to the nearest integer,
  ties to even; the rounded quotient is that integer times \<open>2^-t\<close>.
\<close>

definition quotient_exponent :: "nat \<Rightarrow> nat \<Rightarrow> int" where
  "quotient_exponent p d =
     (let t0 = 53 + int (bit_length d) - int (bit_length p)
      in if 2 ^ 53 \<le> (p * 2 ^ nat t0) div (d * 2 ^ nat (- t0)) then t0 - 1 else t0)"

definition round_quotient :: "nat \<Rightarrow> nat \<Rightarrow> nat" where
  "round_quotient n d =
     (let m = n div d; r = n mod d
      in if d < 2 * r \<or> (2 * r = d \<and> odd m) then m + 1 else m)"

definition floor_quotient :: "nat \<Rightarrow> nat \<Rightarrow> nat" where
  "floor_quotient p d =
     (let t = quotient_exponent p d;
          m = round_quotient (p * 2 ^ nat t) (d * 2 ^ nat (- t))
      in if 0 \<le> t then m div 2 ^ nat t else m * 2 ^ nat (- t))"

section \<open>Gas estimation (estimateGas and the deployment paths)\<close>

text \<open>
  \<open>estimateGas(txObject)\<close>, identical in all six classes.  The argument is the ledger's
  answer to \<open>web3.eth.estimateGas\<close>, \<open>None\<close> when it throws.
\<close>

definition estimateGas :: "nat option \<Rightarrow> enat" where
  "estimateGas ledger_estimate =
     (case ledger_estimate of
        Some estimatedGas \<Rightarrow> gasWithBuffer estimatedGas
      | None \<Rightarrow> enat DEFAULT_GAS)"

text \<open>
  The deployment paths do not call \<open>estimateGas\<close>; they estimate inline
  (\<open>deployTx.estimateGas\<close> in a \<open>try\<close>/\<open>catch\<close> of their own) and fall back to a
  default of their own.  The buffer is applied afterwards, when the transaction object
  is built (\<open>gas: Math.floor(Number(estimatedGas) * 1.2)\<close>).
\<close>

datatype deployer =
  ContractDeployer | ERC20TokenDeployer | NFTManager | ContractTesterManager
  | BatchOperationManager

fun deployDefaultGas :: "deployer \<Rightarrow> nat" where
  "deployDefaultGas ContractDeployer = 2000000"
| "deployDefaultGas ERC20TokenDeployer = 2500000"
| "deployDefaultGas NFTManager = 3000000"
| "deployDefaultGas ContractTesterManager = 2000000"
| "deployDefaultGas BatchOperationManager = 2000000"

definition deployEstimatedGas :: "deployer \<Rightarrow> nat option \<Rightarrow> nat" where
  "deployEstimatedGas d ledger_estimate =
     (case ledger_estimate of
        Some estimatedGas \<Rightarrow> estimatedGas
      | None \<Rightarrow> deployDefaultGas d)"

definition deployGasLimit :: "deployer \<Rightarrow> nat option \<Rightarrow> enat" where
  "deployGasLimit d ledger_estimate = gasWithBuffer (deployEstimatedGas d ledger_estimate)"

text \<open>
  The specification's wording of the buffer, for comparison with the code: the ceiling
  of the raw estimate times 1.2.
\<close>

definition spec_ceil_buffer :: "nat \<Rightarrow> nat" where
  "spec_ceil_buffer g = nat \<lceil>(of_nat g :: rat) * (12 / 10)\<rceil>"

section \<open>One pass through the transaction lifecycle\<close>

text \<open>
  The observable steps of a submission, in the order in which the code performs them:
  the call of \<open>signTransaction\<close> (with the nonce of the transaction), the call of
  \<open>incrementNonce\<close>, the call of \<open>sendSignedTransaction\<close>.  \<open>SetValueCall v\<close> is the
  construction of \<open>contract.methods.setValue(v)\<close>.  What the ledger and the signer do is
  an input: \<open>ledger_nonce\<close> is the answer to \<open>getTransactionCount\<close>, \<open>sign_ok\<close> and
  \<open>send_ok\<close> say whether signing and broadcasting return or throw.
  \<open>getGasPrice\<close> and \<open>estimateGas\<close> never throw and leave no trace here.
\<close>

datatype event = SetValueCall nat | Sign nat | IncrementNonce | Broadcast nat

record tx_env =
  ledger_nonce :: "nat option"
  sign_ok :: bool
  send_ok :: bool

text \<open>
  The sequence shared by \<open>deployContract\<close>, \<open>interactWithContract\<close>, \<open>mintTokens\<close>,
  \<open>burnTokens\<close>, \<open>mintNFT\<close>, \<open>burnNFT\<close>, \<open>deployTestContract\<close>, the three test
  sequences, \<open>deployBatchProcessor\<close>, \<open>testIndividualOperations\<close> and
  \<open>executeBatchOperations\<close>: \<open>getNonce\<close>, sign, \<open>incrementNonce\<close>, send.  An exception
  leaves the \<open>try\<close> block at once.
\<close>

definition signIncrementSend ::
  "tx_env \<Rightarrow> nonce_state \<Rightarrow> event list \<times> (error + unit) \<times> nonce_state" where
  "signIncrementSend env st =
     (case getNonce (ledger_nonce env) st of
        Inl e \<Rightarrow> ([], Inl e, st)
      | Inr (nonce, st1) \<Rightarrow>
          if \<not> sign_ok env then ([Sign nonce], Inl SignError, st1)
          else (let st2 = incrementNonce st1 in
                if \<not> send_ok env
                then ([Sign nonce, IncrementNonce, Broadcast nonce], Inl BroadcastError, st2)
                else ([Sign nonce, IncrementNonce, Broadcast nonce], Inr (), st2)))"

text \<open>
  \<open>TokenTransfer.executeTransfer\<close>.  \<open>balance\<close> is the answer to \<open>getBalance\<close>
  (\<open>None\<close> when it throws); \<open>covers_gas\<close> says whether the amount left after the gas
  cost is positive.  The result is the boolean the method returns.
\<close>

definition executeTransfer ::
  "bool \<Rightarrow> nat option \<Rightarrow> bool \<Rightarrow> tx_env \<Rightarrow> nonce_state \<Rightarrow> event list \<times> bool \<times> nonce_state" where
  "executeTransfer enable_transfer balance covers_gas env st =
     (if \<not> enable_transfer then ([], True, st)
      else case balance of
        None \<Rightarrow> ([], False, st)
      | Some b \<Rightarrow>
          if b = 0 then ([], True, st)
          else (case getNonce (ledger_nonce env) st of
                  Inl e \<Rightarrow> ([], False, st)
                | Inr (nonce, st1) \<Rightarrow>
                    if \<not> covers_gas then ([], True, st1)
                    else (let st2 = incrementNonce st1 in
                          if \<not> sign_ok env then ([IncrementNonce, Sign nonce], False, st2)
                          else if \<not> send_ok env
                          then ([IncrementNonce, Sign nonce, Broadcast nonce], False, st2)
                          else ([IncrementNonce, Sign nonce, Broadcast nonce], True, st2))))"

section \<open>Random counts\<close>

text \<open>
  The expression \<open>Math.floor(Math.random() * (max - min + 1)) + min\<close>, which every
  workflow uses to draw a count; \<open>u\<close> is the value of \<open>Math.random()\<close>.
\<close>

definition pick_count :: "js_double \<Rightarrow> int \<Rightarrow> int \<Rightarrow> int" where
  "pick_count u lo hi = floor_random_times u (hi - lo + 1) + lo"

text \<open>
  \<open>contract_interactions.count\<close> and \<open>transfer_count\<close> may be absent, an object
  \<open>{min, max}\<close> or a plain number.
\<close>

datatype count_config = CountMissing | CountRange "int option" "int option" | CountValue int

definition interactionRange :: "count_config \<Rightarrow> int \<times> int" where
  "interactionRange c =
     (case c of
        CountMissing \<Rightarrow> (3, 8)
      | CountRange mn mx \<Rightarrow>
          (let minInteractions = max 1 (js_or mn 3);
               maxInteractions = max minInteractions (js_or mx 8)
           in (minInteractions, maxInteractions))
      | CountValue v \<Rightarrow> if v = 0 then (3, 8) else (v, v))"

definition interactionCount :: "js_double \<Rightarrow> count_config \<Rightarrow> int" where
  "interactionCount u c = (case interactionRange c of (lo, hi) \<Rightarrow> pick_count u lo hi)"

definition transferRange :: "count_config \<Rightarrow> int \<times> int" where
  "transferRange c =
     (case c of
        CountMissing \<Rightarrow> (1, 1)
      | CountRange mn mx \<Rightarrow>
          (let minTransfers = max 1 (js_or mn 1);
               maxTransfers = max minTransfers (js_or mx 1)
           in (minTransfers, maxTransfers))
      | CountValue v \<Rightarrow> if v = 0 then (1, 1) else (v, v))"

definition transferCount :: "js_double \<Rightarrow> count_config \<Rightarrow> int" where
  "transferCount u c = (case transferRange c of (lo, hi) \<Rightarrow> pick_count u lo hi)"

text \<open>ERC20: \<open>mint_amount.min\<close> and \<open>mint_amount.max\<close>.\<close>

definition mintAmountRange :: "int option \<Rightarrow> int option \<Rightarrow> int \<times> int" where
  "mintAmountRange mn mx =
     (let minMint = max 1 (js_or mn 1000000);
          maxMint = max minMint (js_or mx 10000000)
      in (minMint, maxMint))"

definition mintAmount :: "js_double \<Rightarrow> int option \<Rightarrow> int option \<Rightarrow> int" where
  "mintAmount u mn mx = (case mintAmountRange mn mx of (lo, hi) \<Rightarrow> pick_count u lo hi)"

text \<open>NFT: \<open>supply.min\<close>, \<open>supply.max\<close>, then \<open>mint_count.min\<close>, \<open>mint_count.max\<close>.\<close>

definition supplyRange :: "int option \<Rightarrow> int option \<Rightarrow> int \<times> int" where
  "supplyRange mn mx =
     (let minSupply = max 10 (js_or mn 100);
          maxSupply = max minSupply (js_or mx 1000)
      in (minSupply, maxSupply))"

definition nftSupply :: "js_double \<Rightarrow> int option \<Rightarrow> int option \<Rightarrow> int" where
  "nftSupply u mn mx = (case supplyRange mn mx of (lo, hi) \<Rightarrow> pick_count u lo hi)"

definition mintCountRange :: "int \<Rightarrow> int option \<Rightarrow> int option \<Rightarrow> int \<times> int" where
  "mintCountRange supply mn mx =
     (let minMint = max 1 (js_or mn 2);
          maxMint = min supply (max minMint (js_or mx 10))
      in (minMint, maxMint))"

definition mintCount :: "js_double \<Rightarrow> int \<Rightarrow> int option \<Rightarrow> int option \<Rightarrow> int" where
  "mintCount u supply mn mx =
     (case mintCountRange supply mn mx of (lo, hi) \<Rightarrow> pick_count u lo hi)"

text \<open>
  Batch sizes (\<open>generateBatchOperations\<close>) and test iterations
  (\<open>performParameterVariationTests\<close>, \<open>performStressTests\<close>) take
  \<open>operations_per_batch\<close> and \<open>iterations\<close> from the configuration as they are
  ("use exact values from config").
\<close>

definition numOperations :: "js_double \<Rightarrow> int \<Rightarrow> int \<Rightarrow> int" where
  "numOperations u minOps maxOps = pick_count u minOps maxOps"

definition iterations :: "js_double \<Rightarrow> int \<Rightarrow> int \<Rightarrow> int" where
  "iterations u minIterations maxIterations = pick_count u minIterations maxIterations"

section \<open>Burn planning\<close>





text \<open>
  ERC20 workflow: \<open>Math.floor(mintAmount * burnPercentage / 100)\<close> with
  \<open>burnPercentage = Math.min(100, Math.max(0, config.burn_percentage || 10))\<close>, computed
  in doubles: the product is rounded to 53 bits (\<open>Infinity\<close> from \<open>2^1024\<close> on), the
  quotient by 100 is rounded again, and the result is floored.  \<open>minted_amount\<close> is the
  value of the double \<open>mintAmount\<close>, a positive integer.
\<close>

definition erc20BurnPercentage :: "int option \<Rightarrow> int" where
  "erc20BurnPercentage burn_percentage = min 100 (max 0 (js_or burn_percentage 10))"

definition burnAmount :: "nat \<Rightarrow> int option \<Rightarrow> enat" where
  "burnAmount minted_amount burn_percentage =
     (let p = round53 (minted_amount * nat (erc20BurnPercentage burn_percentage)) in
      if 2 ^ 1024 \<le> p then \<infinity> else enat (floor_quotient p 100))"

section \<open>Boundary tests (ContractTesterManager.performBoundaryTests)\<close>

definition MAX_SAFE_INTEGER :: nat where
  "MAX_SAFE_INTEGER = 2 ^ 53 - 1"

definition boundaryValues :: "nat list" where
  "boundaryValues =
     [0, 1, 2 ^ 16 - 1, 2 ^ 16, 2 ^ 32 - 1, 2 ^ 32, 2 ^ 48 - 1, 2 ^ 48, MAX_SAFE_INTEGER]"

text \<open>
  The loop over \<open>boundaryValues\<close>: each round builds \<open>setValue(value)\<close> and runs one
  pass of the lifecycle inside its own \<open>try\<close>/\<open>catch\<close>, so a failure only skips the
  success counter.  \<open>envs i\<close> is what the ledger and the signer do in round \<open>i\<close>.
\<close>

fun boundaryLoop ::
  "nat list \<Rightarrow> (nat \<Rightarrow> tx_env) \<Rightarrow> nat \<Rightarrow> nonce_state \<Rightarrow> event list \<times> nat \<times> nonce_state" where
  "boundaryLoop [] envs i st = ([], 0, st)"
| "boundaryLoop (v # vs) envs i st =
     (case signIncrementSend (envs i) st of
        (evs, res, st1) \<Rightarrow>
          (case boundaryLoop vs envs (i + 1) st1 of
             (evs', successCount, st2) \<Rightarrow>
               (SetValueCall v # evs @ evs',
                (case res of Inl e \<Rightarrow> successCount | Inr ok \<Rightarrow> successCount + 1),
                st2)))"

text \<open>
  The configured iteration range is read and logged ("not used for boundary tests").
\<close>

definition performBoundaryTests ::
  "int \<times> int \<Rightarrow> (nat \<Rightarrow> tx_env) \<Rightarrow> nonce_state \<Rightarrow> event list \<times> bool \<times> nonce_state" where
  "performBoundaryTests iterations_config envs st =
     (case boundaryLoop boundaryValues envs 0 st of
        (evs, successCount, st') \<Rightarrow> (evs, successCount > 0, st'))"

fun setValueArgs :: "event list \<Rightarrow> nat list" where
  "setValueArgs [] = []"
| "setValueArgs (SetValueCall v # es) = v # setValueArgs es"
| "setValueArgs (e # es) = setValueArgs es"

section \<open>Faucet requests (FaucetManager.requestFaucet)\<close>













section \<open>Properties of the double-precision model\<close>

lemma bit_length_upper: "n < 2 ^ bit_length n"
proof (induction n rule: bit_length.induct)
  case (1 n)
  show ?case
  proof (cases "n = 0")
    case True
    then show ?thesis by (simp add: bit_length.simps)
  next
    case False
    then have "n div 2 < 2 ^ bit_length (n div 2)" using 1 by simp
    then have "n < 2 * 2 ^ bit_length (n div 2)" by linarith
    then show ?thesis using False by (subst bit_length.simps) simp
  qed
qed

lemma bit_length_lower: "0 < n \<Longrightarrow> 2 ^ (bit_length n - 1) \<le> n"
proof (induction n rule: bit_length.induct)
  case (1 n)
  show ?case
  proof (cases "n div 2 = 0")
    case True
    then have "n = 1" using 1(2) by linarith
    then show ?thesis by (simp add: bit_length.simps)
  next
    case False
    then have ih: "2 ^ (bit_length (n div 2) - 1) \<le> n div 2" using 1 by simp
    have pos: "0 < bit_length (n div 2)" using False by (subst bit_length.simps) simp
    have "bit_length n = Suc (bit_length (n div 2))" using 1(2) by (subst bit_length.simps) simp
    then have "(2::nat) ^ (bit_length n - 1) = 2 * 2 ^ (bit_length (n div 2) - 1)"
      using pos by (cases "bit_length (n div 2)") simp_all
    then show ?thesis using ih by linarith
  qed
qed

lemma bit_length_le: "n < 2 ^ k \<Longrightarrow> bit_length n \<le> k"
proof (rule ccontr)
  assume a: "n < 2 ^ k" and b: "\<not> bit_length n \<le> k"
  then have "0 < n" by (cases "n = 0") (simp_all add: bit_length.simps)
  then have "2 ^ (bit_length n - 1) \<le> n" by (rule bit_length_lower)
  moreover have "(2::nat) ^ k \<le> 2 ^ (bit_length n - 1)" using b by (intro power_increasing) simp_all
  ultimately show False using a by linarith
qed

lemma round53_small: "p < 2 ^ 53 \<Longrightarrow> round53 p = p"
  using bit_length_le[of p 53] by (simp add: round53_def)

lemma round53_half_bound:
  assumes "53 < bit_length p"
  shows "2 ^ (bit_length p - 53 - 1) \<le> p div 2 ^ 53"
proof -
  have pos: "0 < p" using assms by (cases "p = 0") (simp_all add: bit_length.simps)
  have e: "bit_length p - 53 - 1 + 53 = bit_length p - 1"
    using assms by arith
  have "(2::nat) ^ (bit_length p - 53 - 1) * 2 ^ 53 = 2 ^ (bit_length p - 53 - 1 + 53)"
    by (simp only: power_add)
  also have "\<dots> = 2 ^ (bit_length p - 1)"
    by (simp only: e)
  also have "\<dots> \<le> p" using pos by (rule bit_length_lower)
  finally show ?thesis by (simp add: less_eq_div_iff_mult_less_eq)
qed

lemma round53_upper: "round53 p \<le> p + p div 2 ^ 53"
proof (cases "bit_length p \<le> 53")
  case True
  then show ?thesis by (simp add: round53_def)
next
  case False
  define s where "s = bit_length p - 53"
  define h :: nat where "h = 2 ^ (s - 1)"
  have s: "0 < s" using False by (simp add: s_def)
  have hs: "(2::nat) ^ s = 2 * h" using s by (cases s) (simp_all add: h_def)
  have hb: "h \<le> p div 2 ^ 53" using round53_half_bound[of p] False by (simp add: h_def s_def)
  have decomp: "p = (p div 2 ^ s) * 2 ^ s + p mod 2 ^ s"
    using div_mult_mod_eq[of p "2 ^ s"] by simp
  show ?thesis
  proof (cases "h < p mod 2 ^ s \<or> (p mod 2 ^ s = h \<and> odd (p div 2 ^ s))")
    case True
    then have "round53 p = (p div 2 ^ s + 1) * 2 ^ s"
      using False by (simp add: round53_def Let_def s_def h_def)
    also have "\<dots> = (p div 2 ^ s) * 2 ^ s + 2 * h" by (simp add: hs)
    also have "\<dots> \<le> (p div 2 ^ s) * 2 ^ s + p mod 2 ^ s + h" using True by auto
    also have "\<dots> = p + h" using decomp by simp
    finally show ?thesis using hb by linarith
  next
    case F2: False
    then have "round53 p = (p div 2 ^ s) * 2 ^ s"
      using False by (simp add: round53_def Let_def s_def h_def)
    then show ?thesis using decomp by linarith
  qed
qed

lemma round53_lower: "p \<le> round53 p + p div 2 ^ 53"
proof (cases "bit_length p \<le> 53")
  case True
  then show ?thesis by (simp add: round53_def)
next
  case False
  define s where "s = bit_length p - 53"
  define h :: nat where "h = 2 ^ (s - 1)"
  have s: "0 < s" using False by (simp add: s_def)
  have hs: "(2::nat) ^ s = 2 * h" using s by (cases s) (simp_all add: h_def)
  have hb: "h \<le> p div 2 ^ 53" using round53_half_bound[of p] False by (simp add: h_def s_def)
  have decomp: "p = (p div 2 ^ s) * 2 ^ s + p mod 2 ^ s"
    using div_mult_mod_eq[of p "2 ^ s"] by simp
  have rlt: "p mod 2 ^ s < 2 * h" using hs by (metis mod_less_divisor zero_less_numeral zero_less_power)
  show ?thesis
  proof (cases "h < p mod 2 ^ s \<or> (p mod 2 ^ s = h \<and> odd (p div 2 ^ s))")
    case True
    then have "round53 p = (p div 2 ^ s + 1) * 2 ^ s"
      using False by (simp add: round53_def Let_def s_def h_def)
    also have "\<dots> = (p div 2 ^ s) * 2 ^ s + 2 * h" by (simp add: hs)
    finally show ?thesis using decomp rlt by linarith
  next
    case F2: False
    then have "round53 p = (p div 2 ^ s) * 2 ^ s"
      using False by (simp add: round53_def Let_def s_def h_def)
    moreover have "p mod 2 ^ s \<le> h" using F2 by auto
    ultimately show ?thesis using decomp hb by linarith
  qed
qed

lemma bit_length_0: "bit_length 0 = 0"
  by (simp add: bit_length.simps)

lemma bit_length_Suc_0: "bit_length (Suc 0) = Suc 0"
  by (subst bit_length.simps) (simp add: bit_length_0)

lemma bit_length_1: "bit_length 1 = 1"
  using bit_length_Suc_0 by simp

lemma bit_length_One: "bit_length (numeral Num.One) = 1"
  using bit_length_1 by simp

lemma bit_length_Bit0: "bit_length (numeral (Num.Bit0 k)) = Suc (bit_length (numeral k))"
  by (subst bit_length.simps) simp

lemma bit_length_Bit1: "bit_length (numeral (Num.Bit1 k)) = Suc (bit_length (numeral k))"
  by (subst bit_length.simps) simp

lemmas bit_length_numeral = bit_length_Suc_0 bit_length_0 bit_length_1 bit_length_One bit_length_Bit0 bit_length_Bit1

lemma round53_large:
  assumes "53 < bit_length p"
  shows "round53 p =
     (if 2 ^ (bit_length p - 53 - 1) < p mod 2 ^ (bit_length p - 53)
         \<or> (p mod 2 ^ (bit_length p - 53) = 2 ^ (bit_length p - 53 - 1)
             \<and> odd (p div 2 ^ (bit_length p - 53)))
      then (p div 2 ^ (bit_length p - 53) + 1) * 2 ^ (bit_length p - 53)
      else (p div 2 ^ (bit_length p - 53)) * 2 ^ (bit_length p - 53))"
  using assms by (simp add: round53_def Let_def)

lemma buffer_const: "5 * 5404319552844595 + 1 = (6::nat) * 2 ^ 52"
  by simp

lemma buffered_exact:
  assumes n: "n \<le> 2 ^ 51"
  shows "round53 (n * 5404319552844595) div 2 ^ 52 = (6 * n) div 5"
proof -
  define P where "P = n * 5404319552844595"
  define q where "q = (6 * n) div 5"
  define r where "r = (6 * n) mod 5"
  have qr: "6 * n = 5 * q + r" and r5: "r < 5"
    by (simp_all add: q_def r_def)
  have key2: "5 * P + n = 6 * n * 4503599627370496"
    unfolding P_def by simp
  have key: "5 * P + n = 5 * (q * 4503599627370496) + r * 4503599627370496"
    unfolding key2 qr by (simp add: algebra_simps)
  have n': "n \<le> 2251799813685248" using n by simp
  show ?thesis
  proof (cases "n \<le> 1")
    case True
    then have "n = 0 \<or> n = 1" by auto
    then show ?thesis
      by (auto simp: round53_small)
  next
    case False
    then have n2: "2 \<le> n" by simp
    have Pge: "2 ^ 53 \<le> P" using n2 by (simp add: P_def)
    have bl: "53 < bit_length P"
    proof (rule ccontr)
      assume "\<not> 53 < bit_length P"
      then have "(2::nat) ^ bit_length P \<le> 2 ^ 53" by (intro power_increasing) simp_all
      then show False using bit_length_upper[of P] Pge by linarith
    qed
    define s where "s = bit_length P - 53"
    define h :: nat where "h = 2 ^ (s - 1)"
    define m where "m = P div (2 * h)"
    define rem where "rem = P mod (2 * h)"
    have s_pos: "0 < s" using bl by (simp add: s_def)
    have hs: "(2::nat) ^ s = 2 * h" using s_pos by (cases s) (simp_all add: h_def)
    have h_pos: "0 < h" by (simp add: h_def)
    have decomp: "P = m * (2 * h) + rem"
      unfolding m_def rem_def using div_mult_mod_eq[of P "2 * h"] by simp
    have rem_lt: "rem < 2 * h"
      using h_pos by (simp add: rem_def)
    have R: "round53 P = (if h < rem \<or> (rem = h \<and> odd m) then (m + 1) * (2 * h) else m * (2 * h))"
      using round53_large[OF bl] unfolding s_def[symmetric] hs m_def rem_def h_def[symmetric] by simp
    have "(2::nat) ^ (bit_length P - 1) = 2 ^ (s + 52)"
      using bl by (simp add: s_def)
    also have "\<dots> = 2 * h * 4503599627370496" by (simp add: power_add hs)
    finally have lowP: "2 * h * 4503599627370496 \<le> P"
      using bit_length_lower[of P] Pge by simp
    have "(2::nat) ^ bit_length P = 2 ^ (s + 53)"
      using bl by (simp add: s_def)
    also have "\<dots> = 2 * h * 9007199254740992" by (simp add: power_add hs)
    finally have upP: "P < 2 * h * 9007199254740992"
      using bit_length_upper[of P] by simp
    have "P < 2 ^ 104" using n' by (simp add: P_def)
    then have "bit_length P \<le> 104" by (rule bit_length_le)
    then have s_le: "s \<le> 51" by (simp add: s_def)
    define t where "t = q * 2 ^ (52 - s)"
    have "(2::nat) ^ 52 = 2 ^ (52 - s) * 2 ^ s"
      using s_le by (simp add: power_add[symmetric])
    then have T: "q * 4503599627370496 = t * (2 * h)"
      by (simp add: t_def hs)
    have F2: "n < 4 * h"
    proof -
      have "n * 4503599627370496 \<le> P" by (simp add: P_def)
      then show ?thesis using upP by linarith
    qed
    have F3: "5 * h < 3 * n"
    proof -
      have "5 * (2 * h * 4503599627370496) < 6 * n * 4503599627370496"
        using lowP key2 n2 by linarith
      then show ?thesis by simp
    qed
    have Rup: "round53 P \<le> P + h"
      using R decomp rem_lt by (auto split: if_splits)
    have Rlow: "m * (2 * h) \<le> round53 P"
      using R by (auto split: if_splits)
    show ?thesis
    proof (cases "r = 0")
      case True
      define d where "d = n div 5"
      have "5 dvd n" using qr True by presburger
      then have nd: "n = 5 * d" by (simp add: d_def)
      have d_pos: "0 < d" using nd n2 by simp
      have d_lt: "d < h" using F2 nd by linarith
      have Pd: "P + d = t * (2 * h)" using key True nd T by linarith
      have t_pos: "0 < t" using Pd d_pos h_pos by (cases t) simp_all
      define e where "e = 2 * h - d"
      have e_lt: "e < 2 * h" and e_gt: "h < e"
        using d_pos d_lt by (simp_all add: e_def)
      have Peq: "P = (t - 1) * (2 * h) + e"
      proof -
        have "t * (2 * h) = (t - 1) * (2 * h) + 2 * h"
          using t_pos by (cases t) simp_all
        then show ?thesis using Pd d_lt by (simp add: e_def)
      qed
      have m_eq: "m = t - 1"
        unfolding m_def Peq using e_lt by simp
      have rem_eq: "rem = e"
        unfolding rem_def Peq using e_lt by simp
      have "h < rem" using rem_eq e_gt by simp
      then have "round53 P = (m + 1) * (2 * h)" using R by simp
      also have "\<dots> = t * (2 * h)" using m_eq t_pos by simp
      also have "\<dots> = q * 4503599627370496" using T by simp
      finally have "round53 P div 4503599627370496 = q" by simp
      then show ?thesis unfolding P_def q_def by simp
    next
      case False
      then have r1: "1 \<le> r" by simp
      have Plow: "q * 4503599627370496 \<le> P" using key r1 n' by linarith
      have Pup: "5 * P + 5 * h < 5 * (q * 4503599627370496) + 5 * 4503599627370496"
        using key r5 F3 n' by linarith
      have "t * (2 * h) \<le> P" using Plow T by simp
      then have "t \<le> m" unfolding m_def using h_pos
        by (simp add: less_eq_div_iff_mult_less_eq)
      then have "t * (2 * h) \<le> m * (2 * h)" by (rule mult_le_mono1)
      then have lo: "q * 4503599627370496 \<le> round53 P" using Rlow T by linarith
      have hi: "round53 P < q * 4503599627370496 + 4503599627370496" using Rup Pup by linarith
      have "round53 P div 4503599627370496 = q"
        using lo hi by (intro div_nat_eqI) (simp_all add: mult.commute)
      then show ?thesis unfolding P_def q_def by simp
    qed
  qed
qed

section \<open>Properties of the gas price and of the nonce tracker\<close>

lemma minGasPrice_value: "minGasPrice = 100000"
  by (simp add: minGasPrice_def toWei_gwei_def MIN_GWEI_def)

lemma maxGasPrice_value: "maxGasPrice = 200000000000"
  by (simp add: maxGasPrice_def toWei_gwei_def MAX_GWEI_def)

lemma fallbackGasPrice_value: "fallbackGasPrice = 100000"
  by (simp add: fallbackGasPrice_def toWei_gwei_def MIN_GWEI_def)

lemma paired_calls_initialised:
  "fst (paired_calls ls (Some c)) = map (\<lambda>i. c + i) [0..<length ls]"
proof (induction ls arbitrary: c)
  case Nil
  show ?case by simp
next
  case (Cons l ls)
  have "fst (paired_calls (l # ls) (Some c)) = c # fst (paired_calls ls (Some (c + 1)))"
    by (simp add: getNonce_def incrementNonce_def split: prod.splits)
  also have "\<dots> = c # map (\<lambda>i. c + 1 + i) [0..<length ls]"
    by (simp add: Cons.IH)
  also have "\<dots> = map (\<lambda>i. c + i) [0..<length (l # ls)]"
    by (simp add: map_upt_Suc del: upt_Suc)
  finally show ?case .
qed

lemma paired_calls_failed_queries:
  "paired_calls (replicate j None @ ls) None = paired_calls ls None"
  by (induction j) (simp_all add: getNonce_def)

lemma sorted_wrt_less_offsets: "sorted_wrt (<) (map (\<lambda>i. (c::nat) + i) [0..<k])"
  by (simp add: sorted_wrt_map sorted_wrt_upt)

text \<open>
  Claim C1.  For every network gas price, every configured multiplier and every
  \<open>retryCount\<close>, whatever the double arithmetic yields, the price returned by
  \<open>getGasPrice\<close> lies between \<open>MIN_GWEI\<close> and \<open>MAX_GWEI\<close> expressed in wei, bounds
  included; this covers the fallback taken when the network price cannot be fetched and
  when any other step inside the \<open>try\<close> block throws.
\<close>

theorem C1_gas_price_within_bounds:
  "minGasPrice \<le> getGasPrice J gas_price_multiplier ledger logging_throws retryCount
   \<and> getGasPrice J gas_price_multiplier ledger logging_throws retryCount \<le> maxGasPrice"
  by (simp add: getGasPrice_def Let_def minGasPrice_value maxGasPrice_value
        fallbackGasPrice_value split: option.splits)

text \<open>
  Claim C2.  On one manager whose \<open>currentNonce\<close> is never reset, let \<open>getNonce\<close>
  calls be paired with \<open>incrementNonce\<close> calls; the first \<open>j\<close> ledger queries may fail,
  then the ledger answers \<open>n\<close>.  The nonces returned are \<open>n, n + 1, n + 2, ...\<close>: a
  strictly increasing sequence that starts at the value first obtained from the network,
  whatever the ledger would answer later.  And \<open>incrementNonce\<close> leaves a nonce that was
  never initialised as it is.
\<close>

theorem C2_nonces_strictly_increasing:
  "fst (paired_calls (replicate j None @ Some n # ls) None) = map (\<lambda>i. n + i) [0..<Suc (length ls)]
   \<and> sorted_wrt (<) (fst (paired_calls (replicate j None @ Some n # ls) None))
   \<and> incrementNonce None = None"
proof -
  have "fst (paired_calls (Some n # ls) None) = n # fst (paired_calls ls (Some (n + 1)))"
    by (simp add: getNonce_def incrementNonce_def split: prod.splits)
  also have "\<dots> = n # map (\<lambda>i. n + 1 + i) [0..<length ls]"
    by (simp add: paired_calls_initialised)
  also have "\<dots> = map (\<lambda>i. n + i) [0..<Suc (length ls)]"
    by (simp add: map_upt_Suc del: upt_Suc)
  finally have eq: "fst (paired_calls (replicate j None @ Some n # ls) None)
      = map (\<lambda>i. n + i) [0..<Suc (length ls)]"
    by (simp add: paired_calls_failed_queries)
  show ?thesis
    unfolding eq using sorted_wrt_less_offsets[of n "Suc (length ls)"]
    by (simp add: incrementNonce_def)
qed

section \<open>Properties of the gas estimate\<close>

lemma gasWithBuffer_ge: "enat g \<le> gasWithBuffer g"
proof -
  define x where "x = round53 g"
  define p where "p = round53 (x * 5404319552844595)"
  have a: "g \<le> x + g div 9007199254740992"
    using round53_lower[of g] by (simp add: x_def)
  have b: "x * 5404319552844595 \<le> p + (x * 5404319552844595) div 9007199254740992"
    using round53_lower[of "x * 5404319552844595"] by (simp add: p_def)
  have a': "9007199254740992 * (g div 9007199254740992) \<le> g" by simp
  have b': "9007199254740992 * ((x * 5404319552844595) div 9007199254740992) \<le> x * 5404319552844595"
    by simp
  have "g * 4503599627370496 \<le> p"
    using a b a' b' by linarith
  then have "g \<le> p div 4503599627370496"
    by (simp add: less_eq_div_iff_mult_less_eq)
  then show ?thesis
    by (simp add: gasWithBuffer_def Let_def x_def[symmetric] p_def[symmetric])
qed

lemma floor_buffer_eq: "nat \<lfloor>(of_nat g :: rat) * (12 / 10)\<rfloor> = (6 * g) div 5"
proof -
  have "(of_nat g :: rat) * (12 / 10) = of_nat (6 * g) / of_nat 5" by simp
  then show ?thesis by (simp only: floor_divide_of_nat_eq nat_int)
qed

lemma gasWithBuffer_exact:
  assumes "g \<le> 2 ^ 51"
  shows "gasWithBuffer g = enat ((6 * g) div 5)"
proof -
  have g: "g \<le> 2251799813685248" using assms by simp
  have x: "round53 g = g" using g by (intro round53_small) simp
  define p where "p = round53 (g * 5404319552844595)"
  have "p \<le> g * 5404319552844595 + (g * 5404319552844595) div 2 ^ 53"
    unfolding p_def by (rule round53_upper)
  also have "\<dots> \<le> 2 * (g * 5404319552844595)" by simp
  also have "\<dots> < 2 ^ 1076" using g by simp
  finally have small: "\<not> 2 ^ 1076 \<le> p" by simp
  have "\<not> (2::nat) ^ 1024 \<le> g" using g by simp
  then show ?thesis
    using small buffered_exact[OF assms]
    by (simp add: gasWithBuffer_def Let_def x p_def[symmetric])
qed

lemma estimateGas_21001: "estimateGas (Some 21001) = enat 25201"
  by (simp add: estimateGas_def gasWithBuffer_def round53_def Let_def bit_length_numeral)

lemma spec_ceil_buffer_21001: "spec_ceil_buffer 21001 = 25202"
proof -
  have "\<lceil>(of_nat 21001 :: rat) * (12 / 10)\<rceil> = 25202"
    by (rule ceiling_unique) simp_all
  then show ?thesis by (simp add: spec_ceil_buffer_def)
qed

text \<open>
  When the inline estimate of a deployment fails, the transaction is built with the
  buffered default: 2,400,000 gas for the basic contract.
\<close>

lemma deployGasLimit_default:
  "deployGasLimit ContractDeployer None = enat 2400000"
  by (simp add: deployGasLimit_def deployEstimatedGas_def gasWithBuffer_def round53_def
        Let_def bit_length_numeral)

text \<open>
  Claim C4, as stated, fails: for the raw estimate 21001 the code returns
  \<open>Math.floor(21001 * 1.2) = 25201\<close>, the ceiling of \<open>21001 * 1.2 = 25201.2\<close> is 25202.
\<close>

theorem C4_counterexample:
  "estimateGas (Some 21001) \<noteq> enat (spec_ceil_buffer 21001)"
  by (simp add: estimateGas_21001 spec_ceil_buffer_21001)

text \<open>
  Claim C4, amended.  Whenever the ledger's gas estimation succeeds, \<open>estimateGas\<close>
  returns the floor (not the ceiling) of the raw estimate multiplied by 1.2: the double
  product, rounded as IEEE-754 prescribes and then floored, is exactly
  \<open>\<lfloor>estimate * 1.2\<rfloor>\<close> for every estimate up to \<open>2^51\<close>.
\<close>

theorem C4_estimate_is_floor:
  "g \<le> 2 ^ 51 \<Longrightarrow> estimateGas (Some g) = enat (nat \<lfloor>(of_nat g :: rat) * (12 / 10)\<rfloor>)"
  by (simp only: estimateGas_def option.case gasWithBuffer_exact floor_buffer_eq)

theorem C4_estimate_is_floor_witness:
  "(21001::nat) \<le> 2 ^ 51 \<and> estimateGas (Some 21001) = enat 25201"
  using C4_estimate_is_floor[of 21001] unfolding floor_buffer_eq by simp

text \<open>
  Claim C5.  For every raw estimate, the result of \<open>estimateGas\<close> is at least the raw
  estimate when the estimation succeeds, and is the default 150,000 when it fails.  In
  the deployment paths the inline estimate is the raw estimate when the estimation
  succeeds (and the gas limit built from it is at least the raw estimate), and the
  default of the path when it fails: 2,000,000 for the basic contract, the tester and
  the batch processor, 2,500,000 for ERC20, 3,000,000 for NFT.  Every function here is
  total: a failed estimation yields a value, never an error for the caller.
\<close>

theorem C5_estimate_at_least_raw_or_default:
  "enat g \<le> estimateGas (Some g)
   \<and> estimateGas None = enat 150000
   \<and> g \<le> deployEstimatedGas d (Some g)
   \<and> enat g \<le> deployGasLimit d (Some g)
   \<and> deployEstimatedGas ContractDeployer None = 2000000
   \<and> deployEstimatedGas ERC20TokenDeployer None = 2500000
   \<and> deployEstimatedGas NFTManager None = 3000000
   \<and> deployEstimatedGas ContractTesterManager None = 2000000
   \<and> deployEstimatedGas BatchOperationManager None = 2000000"
  by (simp add: estimateGas_def deployEstimatedGas_def deployGasLimit_def DEFAULT_GAS_def
        gasWithBuffer_ge)

section \<open>Properties of the random counts\<close>

lemma round53_random_product:
  assumes a: "a < 2 ^ e" and a53: "a < 2 ^ 53" and k: "0 < k"
  shows "round53 (a * k) < 2 ^ e * k"
proof -
  have "a * k < 2 ^ 53 * k" using a53 k by simp
  then have "(a * k) div 2 ^ 53 < k"
    by (simp add: less_mult_imp_div_less mult.commute)
  then have "a * k + (a * k) div 2 ^ 53 < (a + 1) * k" by simp
  also have "\<dots> \<le> 2 ^ e * k" using a by (intro mult_le_mono1) simp
  finally show ?thesis using round53_upper[of "a * k"] by linarith
qed

lemma floor_random_times_pos:
  assumes "is_random u" and "1 \<le> k"
  shows "0 \<le> floor_random_times u k \<and> floor_random_times u k < k"
proof -
  have "round53 (mant u * nat k) < 2 ^ expo u * nat k"
    using assms by (intro round53_random_product) (simp_all add: is_random_def)
  then have "round53 (mant u * nat k) div 2 ^ expo u < nat k"
    by (simp add: less_mult_imp_div_less mult.commute)
  then show ?thesis using assms by (simp add: floor_random_times_def)
qed

lemma floor_random_times_zero: "floor_random_times u 0 = 0"
  by (simp add: floor_random_times_def round53_small)

lemma floor_random_times_neg:
  assumes "is_random u" and "k < 0"
  shows "k \<le> floor_random_times u k \<and> floor_random_times u k \<le> 0"
proof -
  define K where "K = nat (- k)"
  have K: "0 < K" using assms by (simp add: K_def)
  have "round53 (mant u * K) < 2 ^ expo u * K"
    using assms K by (intro round53_random_product) (simp_all add: is_random_def)
  then have "round53 (mant u * K) + 2 ^ expo u - 1 < (K + 1) * 2 ^ expo u"
    by (simp add: mult.commute)
  then have "(round53 (mant u * K) + 2 ^ expo u - 1) div 2 ^ expo u < K + 1"
    by (simp add: less_mult_imp_div_less)
  then have "int ((round53 (mant u * K) + 2 ^ expo u - 1) div 2 ^ expo u) \<le> - k"
    using assms by (simp add: K_def)
  then show ?thesis using assms by (simp add: floor_random_times_def K_def[symmetric])
qed

lemma pick_count_in_range:
  assumes "is_random u" and "lo \<le> hi"
  shows "lo \<le> pick_count u lo hi \<and> pick_count u lo hi \<le> hi"
  using floor_random_times_pos[OF assms(1), of "hi - lo + 1"] assms(2)
  by (simp add: pick_count_def)

lemma pick_count_reversed:
  assumes "is_random u" and "hi < lo"
  shows "hi + 1 \<le> pick_count u lo hi \<and> pick_count u lo hi \<le> lo"
proof (cases "hi - lo + 1 = 0")
  case True
  then show ?thesis by (simp add: pick_count_def floor_random_times_zero)
next
  case False
  then have "hi - lo + 1 < 0" using assms(2) by simp
  from floor_random_times_neg[OF assms(1) this] show ?thesis
    by (simp add: pick_count_def)
qed

lemma is_random_half: "is_random (Dbl 1 1)"
  by (simp add: is_random_def)

lemma numOperations_5_2: "numOperations (Dbl 1 1) 5 2 = 4"
  by (simp add: numOperations_def pick_count_def floor_random_times_def round53_def Let_def
        bit_length_numeral)

lemma interactionCount_bounds:
  assumes "is_random u"
  shows "max 1 (js_or mn 3) \<le> interactionCount u (CountRange mn mx)
     \<and> interactionCount u (CountRange mn mx) \<le> max (max 1 (js_or mn 3)) (js_or mx 8)"
  using pick_count_in_range[OF assms, of "max 1 (js_or mn 3)" "max (max 1 (js_or mn 3)) (js_or mx 8)"]
  by (simp add: interactionCount_def interactionRange_def Let_def)

lemma transferCount_bounds:
  assumes "is_random u"
  shows "max 1 (js_or mn 1) \<le> transferCount u (CountRange mn mx)
     \<and> transferCount u (CountRange mn mx) \<le> max (max 1 (js_or mn 1)) (js_or mx 1)"
  using pick_count_in_range[OF assms, of "max 1 (js_or mn 1)" "max (max 1 (js_or mn 1)) (js_or mx 1)"]
  by (simp add: transferCount_def transferRange_def Let_def)

lemma mintAmount_bounds:
  assumes "is_random u"
  shows "max 1 (js_or mn 1000000) \<le> mintAmount u mn mx
     \<and> mintAmount u mn mx \<le> max (max 1 (js_or mn 1000000)) (js_or mx 10000000)"
  using pick_count_in_range[OF assms, of "max 1 (js_or mn 1000000)"
      "max (max 1 (js_or mn 1000000)) (js_or mx 10000000)"]
  by (simp add: mintAmount_def mintAmountRange_def Let_def)

lemma nftSupply_bounds:
  assumes "is_random u"
  shows "max 10 (js_or mn 100) \<le> nftSupply u mn mx
     \<and> nftSupply u mn mx \<le> max (max 10 (js_or mn 100)) (js_or mx 1000)"
  using pick_count_in_range[OF assms, of "max 10 (js_or mn 100)"
      "max (max 10 (js_or mn 100)) (js_or mx 1000)"]
  by (simp add: nftSupply_def supplyRange_def Let_def)

lemma mintCount_bounds:
  assumes "is_random u" and "max 1 (js_or mn 2) \<le> supply"
  shows "max 1 (js_or mn 2) \<le> mintCount u supply mn mx
     \<and> mintCount u supply mn mx \<le> min supply (max (max 1 (js_or mn 2)) (js_or mx 10))"
  using pick_count_in_range[OF assms(1), of "max 1 (js_or mn 2)"
      "min supply (max (max 1 (js_or mn 2)) (js_or mx 10))"] assms(2)
  by (simp add: mintCount_def mintCountRange_def Let_def)

text \<open>
  Whenever the normalised minimum of \<open>mint_count\<close> is above the drawn supply, every
  draw exceeds the supply.
\<close>

lemma mintCount_exceeds_supply:
  assumes "is_random u" and "supply < max 1 (js_or mn 2)"
  shows "supply < mintCount u supply mn mx"
proof -
  have hi: "min supply (max (max 1 (js_or mn 2)) (js_or mx 10)) = supply"
    using assms(2) by simp
  have "supply < max 1 (js_or mn 2)" by (rule assms(2))
  from pick_count_reversed[OF assms(1) this] show ?thesis
    by (simp add: mintCount_def mintCountRange_def Let_def hi)
qed

text \<open>
  Claim C6, as stated, fails for batch sizes: with \<open>operations_per_batch\<close> set to
  \<open>{min: 5, max: 2}\<close> and \<open>Math.random() = 0.5\<close> the batch has
  \<open>Math.floor(0.5 * (2 - 5 + 1)) + 5 = 4\<close> operations, which is neither in \<open>[5, 2]\<close>
  nor the 5 that raising the maximum to the minimum would give.
\<close>

theorem C6_counterexample:
  "is_random (Dbl 1 1) \<and> numOperations (Dbl 1 1) 5 2 = 4
   \<and> \<not> (5 \<le> numOperations (Dbl 1 1) 5 2 \<and> numOperations (Dbl 1 1) 5 2 \<le> max 5 2)"
  using numOperations_5_2 is_random_half by simp

text \<open>
  Claim C6, amended.  For every value of \<open>Math.random()\<close>: interaction counts, transfer
  counts, ERC20 mint amounts and the NFT supply are drawn from a normalised range, whose
  minimum is the configured (or default) minimum raised to the floor of the workflow and
  whose maximum is the configured (or default) maximum raised to that minimum; the draw
  is an integer of that range, bounds included, so a configured minimum above the
  configured maximum behaves as if the maximum were raised to the minimum.  The NFT mint
  count is drawn likewise, with the maximum capped by the supply, when its normalised
  minimum does not exceed the supply.  Batch sizes and test iterations use the
  configured values as they are: the draw lies in \<open>[min, max]\<close> when \<open>min \<le> max\<close>, and
  in \<open>[max + 1, min]\<close> when \<open>min > max\<close>.
\<close>

theorem C6_counts_within_range:
  assumes "is_random u"
  shows "(max 1 (js_or mn 3) \<le> interactionCount u (CountRange mn mx)
          \<and> interactionCount u (CountRange mn mx) \<le> max (max 1 (js_or mn 3)) (js_or mx 8))
     \<and> (max 1 (js_or mn 1) \<le> transferCount u (CountRange mn mx)
          \<and> transferCount u (CountRange mn mx) \<le> max (max 1 (js_or mn 1)) (js_or mx 1))
     \<and> (max 1 (js_or mn 1000000) \<le> mintAmount u mn mx
          \<and> mintAmount u mn mx \<le> max (max 1 (js_or mn 1000000)) (js_or mx 10000000))
     \<and> (max 10 (js_or mn 100) \<le> nftSupply u mn mx
          \<and> nftSupply u mn mx \<le> max (max 10 (js_or mn 100)) (js_or mx 1000))
     \<and> (max 1 (js_or mn 2) \<le> drawn \<longrightarrow>
            max 1 (js_or mn 2) \<le> mintCount u drawn mn mx
          \<and> mintCount u drawn mn mx \<le> min drawn (max (max 1 (js_or mn 2)) (js_or mx 10)))
     \<and> (lo \<le> hi \<longrightarrow> lo \<le> numOperations u lo hi \<and> numOperations u lo hi \<le> hi)
     \<and> (hi < lo \<longrightarrow> hi + 1 \<le> numOperations u lo hi \<and> numOperations u lo hi \<le> lo)
     \<and> (lo \<le> hi \<longrightarrow> lo \<le> iterations u lo hi \<and> iterations u lo hi \<le> hi)
     \<and> (hi < lo \<longrightarrow> hi + 1 \<le> iterations u lo hi \<and> iterations u lo hi \<le> lo)"
  using interactionCount_bounds[OF assms, of mn mx] transferCount_bounds[OF assms, of mn mx]
    mintAmount_bounds[OF assms, of mn mx] nftSupply_bounds[OF assms, of mn mx]
    mintCount_bounds[OF assms, of mn drawn mx]
    pick_count_in_range[OF assms, of lo hi] pick_count_reversed[OF assms, of hi lo]
  by (simp add: numOperations_def iterations_def)

theorem C6_counts_within_range_witness:
  "is_random (Dbl 1 1)
   \<and> interactionCount (Dbl 1 1) (CountRange (Some 5) (Some 2)) = 5
   \<and> transferCount (Dbl 1 1) (CountRange (Some 5) (Some 2)) = 5
   \<and> mintAmount (Dbl 1 1) (Some 5) (Some 2) = 5
   \<and> nftSupply (Dbl 1 1) (Some 5) (Some 2) = 10
   \<and> 5 \<le> mintCount (Dbl 1 1) 100 (Some 5) (Some 2)
   \<and> 2 \<le> numOperations (Dbl 1 1) 2 5 \<and> numOperations (Dbl 1 1) 2 5 \<le> 5
   \<and> 3 \<le> iterations (Dbl 1 1) 5 2 \<and> iterations (Dbl 1 1) 5 2 \<le> 5"
  using C6_counts_within_range[OF is_random_half, of "Some 5" "Some 2" 100 2 5]
    C6_counts_within_range[OF is_random_half, of "Some 5" "Some 2" 100 5 2]
    is_random_half
  by (simp add: js_or_def)

text \<open>
  Claim C7 at a failing input: with \<open>supply = {min: 10, max: 10}\<close>,
  \<open>mint_count = {min: 50, max: 60}\<close> and \<open>Math.random() = 0.5\<close> the supply drawn is 10
  and the workflow sets out to mint 30 tokens.
\<close>

theorem C7_mint_count_exceeds_supply:
  "is_random (Dbl 1 1)
   \<and> nftSupply (Dbl 1 1) (Some 10) (Some 10) = 10
   \<and> mintCount (Dbl 1 1) 10 (Some 50) (Some 60) = 30"
  using is_random_half
  by (simp add: nftSupply_def supplyRange_def mintCount_def mintCountRange_def
        js_or_def pick_count_def floor_random_times_def round53_def Let_def bit_length_numeral)

section \<open>Properties of the transaction lifecycle\<close>

text \<open>
  In the shared sequence the nonce is incremented exactly when the transaction has been
  signed, directly after the signing and directly before the broadcast, and the increment
  stays when the broadcast fails.
\<close>

lemma signIncrementSend_order:
  "(case signIncrementSend env st of
      (evs, res, st') \<Rightarrow>
        (evs = [] \<and> st' = st \<and> res \<noteq> Inr ())
      \<or> (\<exists>n. evs = [Sign n] \<and> st' = Some n \<and> res = Inl SignError)
      \<or> (\<exists>n. evs = [Sign n, IncrementNonce, Broadcast n] \<and> st' = Some (n + 1)
              \<and> (res = Inr () \<longleftrightarrow> send_ok env)))"
  by (auto simp: signIncrementSend_def getNonce_def incrementNonce_def Let_def
        split: option.splits)

text \<open>
  Claim C3 at a failing input: \<open>TokenTransfer.executeTransfer\<close> calls
  \<open>incrementNonce\<close> before \<open>signTransaction\<close>.  With a ledger nonce of 7 the trace is
  increment, sign, broadcast; and when signing throws, the tracked nonce has already
  moved to 8 although nothing was broadcast.  The shared sequence of the other
  operations signs first and leaves the nonce at 7 when signing throws.
\<close>

theorem C3_transfer_increments_before_signing:
  "executeTransfer True (Some 1000) True
       \<lparr>ledger_nonce = Some 7, sign_ok = False, send_ok = True\<rparr> None
     = ([IncrementNonce, Sign 7], False, Some 8)
   \<and> executeTransfer True (Some 1000) True
       \<lparr>ledger_nonce = Some 7, sign_ok = True, send_ok = True\<rparr> None
     = ([IncrementNonce, Sign 7, Broadcast 7], True, Some 8)
   \<and> signIncrementSend \<lparr>ledger_nonce = Some 7, sign_ok = False, send_ok = True\<rparr> None
     = ([Sign 7], Inl SignError, Some 7)
   \<and> signIncrementSend \<lparr>ledger_nonce = Some 7, sign_ok = True, send_ok = True\<rparr> None
     = ([Sign 7, IncrementNonce, Broadcast 7], Inr (), Some 8)"
  by (simp add: executeTransfer_def signIncrementSend_def getNonce_def incrementNonce_def)

section \<open>Properties of the boundary tests\<close>

lemma setValueArgs_append: "setValueArgs (xs @ ys) = setValueArgs xs @ setValueArgs ys"
  by (induction xs rule: setValueArgs.induct) simp_all

lemma setValueArgs_signIncrementSend: "setValueArgs (fst (signIncrementSend env st)) = []"
  by (simp add: signIncrementSend_def getNonce_def Let_def split: option.splits)

lemma setValueArgs_boundaryLoop: "setValueArgs (fst (boundaryLoop vs envs i st)) = vs"
proof (induction vs arbitrary: i st)
  case Nil
  show ?case by simp
next
  case (Cons v vs)
  obtain evs res st1 where a: "signIncrementSend (envs i) st = (evs, res, st1)"
    by (cases "signIncrementSend (envs i) st") auto
  obtain evs' n st2 where b: "boundaryLoop vs envs (i + 1) st1 = (evs', n, st2)"
    by (cases "boundaryLoop vs envs (i + 1) st1") auto
  have "setValueArgs evs = []" using setValueArgs_signIncrementSend[of "envs i" st] a by simp
  moreover have "setValueArgs evs' = vs" using Cons.IH[of "i + 1" st1] b by simp
  ultimately show ?case using b by (simp add: a setValueArgs_append)
qed

text \<open>
  Claim C8.  Whatever the configured iteration range, and whatever the ledger and the
  signer do in each round, the boundary test sequence builds exactly nine \<open>setValue\<close>
  calls, with the values \<open>0, 1, 2^16 - 1, 2^16, 2^32 - 1, 2^32, 2^48 - 1, 2^48\<close> and
  \<open>Number.MAX_SAFE_INTEGER\<close>, in this order.
\<close>

theorem C8_boundary_values_fixed:
  "setValueArgs (fst (performBoundaryTests iterations_config envs st))
     = [0, 1, 65535, 65536, 4294967295, 4294967296, 281474976710655, 281474976710656,
        9007199254740991]
   \<and> length (setValueArgs (fst (performBoundaryTests iterations_config envs st))) = 9"
proof -
  obtain evs n st' where run: "boundaryLoop boundaryValues envs 0 st = (evs, n, st')"
    by (cases "boundaryLoop boundaryValues envs 0 st") auto
  have "setValueArgs (fst (performBoundaryTests iterations_config envs st)) = boundaryValues"
    using setValueArgs_boundaryLoop[of boundaryValues envs 0 st]
    by (simp add: performBoundaryTests_def run)
  then show ?thesis by (simp add: boundaryValues_def MAX_SAFE_INTEGER_def)
qed

section \<open>Properties of the faucet requests\<close>

lemma js_includes_sublist: "js_includes s t \<longleftrightarrow> sublist t s"
  by (induction s) (simp_all add: sublist_Cons_right)

















section \<open>Properties of the burn planning\<close>












text \<open>
  Beyond \<open>2^53\<close> the double product is no longer exact: for a mint amount of
  100000000000001 and 99 percent the product 9900000000000099 rounds to
  9900000000000100, and the code burns 99000000000001.
\<close>

lemma burnAmount_beyond_2_53: "burnAmount 100000000000001 (Some 99) = enat 99000000000001"
  by (simp add: burnAmount_def floor_quotient_def quotient_exponent_def round_quotient_def
        erc20BurnPercentage_def js_or_def round53_def Let_def bit_length_numeral)



end
